theory Spec2Isabelle
  imports Main "HOL-Library.AList"
begin

section \<open>Data model of server.js\<close>

text \<open>
  Times are JavaScript millisecond timestamps (\<open>Date.now()\<close>), modelled as \<open>int\<close>.
  Counters are JavaScript numbers that only ever grow by \<open>++\<close> from 0, modelled as \<open>nat\<close>.
  Thrown values are \<open>Error\<close> objects; only their \<open>message\<close> is read by the code.
\<close>

datatype js_error = Error (message: string)

datatype status = Processing | Completed | Failed

text \<open>
  A value of the \<open>activeSessions\<close> map. The object is built at the start of
  \<open>processGeneration\<close> and rebuilt with object spread at the end, so every field other than
  \<open>status\<close> can be absent (a spread of \<open>undefined\<close> copies nothing).
\<close>

record session =
  kioskId :: "string option"
  startTime :: "int option"
  status :: status
  backgroundId :: "string option"
  gender :: "string option"
  prominence :: "string option"
  endTime :: "int option"
  outputFile :: "string option"
  error :: "string option"

text \<open>
  A value of \<open>kioskStats\<close>. The source's field \<open>total\<close> is named \<open>totalCount\<close> here
  because \<open>total\<close> is a constant of HOL's relation library.
\<close>

record kiosk_stats =
  totalCount :: nat
  completed :: nat
  failed :: nat
  lastActive :: "int option"

text \<open>
  One call of \<open>console.error(label, error)\<close>. The informational \<open>console.log\<close>
  lines are not modelled.
\<close>

type_synonym log_line = "string \<times> js_error"

text \<open>
  The mutable globals of the module: the insertion-ordered \<open>Map\<close> of sessions, the
  \<open>kioskStats\<close> object, and what has been written with \<open>console.error\<close>.
\<close>

record server =
  activeSessions :: "(string \<times> session) list"
  kioskStats :: "string \<rightharpoonup> kiosk_stats"
  console :: "log_line list"

definition zero_stats :: kiosk_stats where
  "zero_stats = \<lparr>totalCount = 0, completed = 0, failed = 0, lastActive = None\<rparr>"

definition kiosk_ids :: "string list" where
  "kiosk_ids = [''kiosk-1'', ''kiosk-2'', ''kiosk-3'', ''kiosk-4'']"

definition initial_server :: server where
  "initial_server =
     \<lparr>activeSessions = [],
      kioskStats = map_of (map (\<lambda>k. (k, zero_stats)) kiosk_ids),
      console = []\<rparr>"

text \<open>
  The \<open>BACKGROUNDS\<close> table, each entry projected to its \<open>file\<close> field: the other
  fields are read only by the prompt builder, whose text goes to the external model and
  nowhere else.
\<close>

definition BACKGROUNDS :: "(string \<times> string) list" where
  "BACKGROUNDS =
     [(''amsterdam750-flowermarket'', ''Amsterdam750-FlowerMarket.png''),
      (''amsterdam750-goldenage'', ''Amsterdam750-GoldenAgeV2.png''),
      (''amsterdam750-rijksmuseum'', ''Amsterdam750-RijksmuseumV6.png''),
      (''future-solarbridge'', ''FutureofRunning-SolarBridge3.png''),
      (''future-biodomes'', ''FutureofRunningBiodomes2.png''),
      (''future-smartfinish'', ''FututeofRunning-SmartFinish6.png''),
      (''tcs50-firstmarathon'', ''TCS50-FirstMarathon.png''),
      (''tcs50-iamsterdam'', ''TCS50-IamsterdamV4.png''),
      (''tcs50-vondelpark'', ''TCS50-Vondelpark.png'')]"

section \<open>Helpers\<close>

text \<open>Decimal text of a number, as a template literal prints it.\<close>

fun show_nat :: "nat \<Rightarrow> string" where
  "show_nat n =
     (if n < 10 then [char_of (48 + n)]
      else show_nat (n div 10) @ [char_of (48 + n mod 10)])"

declare show_nat.simps [simp del]

definition show_int :: "int \<Rightarrow> string" where
  "show_int i = (if i < 0 then CHR ''-'' # show_nat (nat (- i)) else show_nat (nat i))"

text \<open>\<open>s.slice(0, 8)\<close>\<close>

definition slice8 :: "string \<Rightarrow> string" where
  "slice8 s = take 8 s"

text \<open>\<open>xs.slice(-20)\<close>: the last 20 elements, or all of them when there are fewer.\<close>

definition slice_last20 :: "'a list \<Rightarrow> 'a list" where
  "slice_last20 xs = drop (length xs - 20) xs"

section \<open>processGeneration\<close>

text \<open>
  Lines 492-494. \<open>kioskStats[kioskId]?.total !== undefined && kioskStats[kioskId].total++\<close>
  changes a counter only when the key names one of the four entries: a key that resolves
  through \<open>Object.prototype\<close> yields an object without a \<open>total\<close>, \<open>completed\<close> or
  \<open>failed\<close> property. Line 494 stores \<open>new Date()\<close> in the entry (for a prototype key the
  store lands outside \<open>kioskStats\<close> and is not represented).
\<close>

definition bump_total :: "string \<Rightarrow> (string \<rightharpoonup> kiosk_stats) \<Rightarrow> (string \<rightharpoonup> kiosk_stats)" where
  "bump_total k m =
     (case m k of None \<Rightarrow> m | Some st \<Rightarrow> m(k \<mapsto> st\<lparr>totalCount := totalCount st + 1\<rparr>))"

definition bump_completed :: "string \<Rightarrow> (string \<rightharpoonup> kiosk_stats) \<Rightarrow> (string \<rightharpoonup> kiosk_stats)" where
  "bump_completed k m =
     (case m k of None \<Rightarrow> m | Some st \<Rightarrow> m(k \<mapsto> st\<lparr>completed := completed st + 1\<rparr>))"

definition bump_failed :: "string \<Rightarrow> (string \<rightharpoonup> kiosk_stats) \<Rightarrow> (string \<rightharpoonup> kiosk_stats)" where
  "bump_failed k m =
     (case m k of None \<Rightarrow> m | Some st \<Rightarrow> m(k \<mapsto> st\<lparr>failed := failed st + 1\<rparr>))"

definition set_lastActive :: "string \<Rightarrow> int \<Rightarrow> (string \<rightharpoonup> kiosk_stats) \<Rightarrow> (string \<rightharpoonup> kiosk_stats)" where
  "set_lastActive k t m =
     (case m k of None \<Rightarrow> m | Some st \<Rightarrow> m(k \<mapsto> st\<lparr>lastActive := Some t\<rparr>))"

text \<open>The request fields handed to \<open>processGeneration\<close>: backgroundId, gender, prominence.\<close>

type_synonym gen_options = "string \<times> string \<times> string"

text \<open>
  Lines 489-504, up to the \<open>try\<close>: \<open>sid\<close> is the value of \<open>uuidv4()\<close>, \<open>t0\<close> of
  \<open>Date.now()\<close>, \<open>tA\<close> of \<open>new Date()\<close>.
\<close>

definition pg_begin :: "string \<Rightarrow> string \<Rightarrow> gen_options \<Rightarrow> int \<Rightarrow> int \<Rightarrow> server \<Rightarrow> server" where
  "pg_begin sid kid opts t0 tA s =
     (case opts of (bid, gen, prom) \<Rightarrow>
        s\<lparr>kioskStats := set_lastActive kid tA (bump_total kid (kioskStats s)),
          activeSessions :=
            AList.update sid
              \<lparr>kioskId = Some kid, startTime = Some t0, status = Processing,
               backgroundId = Some bid, gender = Some gen, prominence = Some prom,
               endTime = None, outputFile = None, error = None\<rparr>
              (activeSessions s)\<rparr>)"

text \<open>\<open>{...activeSessions.get(sessionId), status: 'completed', endTime, outputFile}\<close>\<close>

definition completed_session :: "session option \<Rightarrow> int \<Rightarrow> string \<Rightarrow> session" where
  "completed_session old t filename =
     (case old of
        Some x \<Rightarrow> x\<lparr>status := Completed, endTime := Some t, outputFile := Some filename\<rparr>
      | None \<Rightarrow>
          \<lparr>kioskId = None, startTime = None, status = Completed, backgroundId = None,
           gender = None, prominence = None, endTime = Some t, outputFile = Some filename,
           error = None\<rparr>)"

text \<open>\<open>{...activeSessions.get(sessionId), status: 'failed', error: error.message, endTime}\<close>\<close>

definition failed_session :: "session option \<Rightarrow> js_error \<Rightarrow> int \<Rightarrow> session" where
  "failed_session old e t =
     (case old of
        Some x \<Rightarrow> x\<lparr>status := Failed, error := Some (message e), endTime := Some t\<rparr>
      | None \<Rightarrow>
          \<lparr>kioskId = None, startTime = None, status = Failed, backgroundId = None,
           gender = None, prominence = None, endTime = Some t, outputFile = None,
           error = Some (message e)\<rparr>)"

text \<open>Lines 541-552: the success branch, after the artifact has been written.\<close>

definition pg_complete :: "string \<Rightarrow> string \<Rightarrow> string \<Rightarrow> int \<Rightarrow> server \<Rightarrow> server" where
  "pg_complete sid kid filename t s =
     s\<lparr>activeSessions :=
         AList.update sid
           (completed_session (map_of (activeSessions s) sid) t filename) (activeSessions s),
       kioskStats := bump_completed kid (kioskStats s)\<rparr>"

text \<open>Lines 567-581: the \<open>catch\<close> block, before the re-throw.\<close>

definition pg_fail :: "string \<Rightarrow> string \<Rightarrow> js_error \<Rightarrow> int \<Rightarrow> server \<Rightarrow> server" where
  "pg_fail sid kid e t s =
     s\<lparr>console := console s @ [(''['' @ kid @ ''] Generation error:'', e)],
       activeSessions :=
         AList.update sid (failed_session (map_of (activeSessions s) sid) e t) (activeSessions s),
       kioskStats := bump_failed kid (kioskStats s)\<rparr>"

text \<open>
  What the body of the \<open>try\<close> depends on outside the module's own state. \<open>protoHas\<close> says
  which keys resolve through the prototype chain of an object literal (\<open>constructor\<close>,
  \<open>toString\<close>, ...): for them \<open>BACKGROUNDS[backgroundId]\<close> is truthy but has no \<open>file\<close>,
  and \<open>path.join\<close> throws \<open>joinError\<close>. The other fields are the outcomes of
  \<open>fs.readFile\<close>, \<open>model.generateContent\<close> (the list \<open>parts\<close>, each part given by its
  \<open>inlineData?.data\<close>), \<open>fs.writeFile\<close>, and the clock readings.
\<close>

record env =
  protoHas :: "string \<Rightarrow> bool"
  joinError :: js_error
  readFile :: "string \<Rightarrow> js_error + string"
  generateContent :: "js_error + string option list"
  writeFile :: "string \<Rightarrow> js_error option"
  fileTime :: int
  endClock :: int
  returnClock :: int
  queueSizeAtReturn :: nat

text \<open>
  Truthiness of a value that is a string or \<open>undefined\<close>: present and not the empty
  string. Used for \<open>part.inlineData?.data\<close> and for the request's body fields.
\<close>

definition truthy :: "string option \<Rightarrow> bool" where
  "truthy p = (case p of None \<Rightarrow> False | Some d \<Rightarrow> d \<noteq> [])"

definition artifact_name :: "string \<Rightarrow> int \<Rightarrow> string \<Rightarrow> string" where
  "artifact_name kid t sid =
     ''marathon_'' @ kid @ ''_'' @ show_int t @ ''_'' @ slice8 sid @ ''.png''"

text \<open>
  Lines 507-566: the body of the \<open>try\<close> up to the point where the artifact is on disk
  (\<open>Inr filename\<close>) or something has thrown (\<open>Inl e\<close>). \<open>applyOverlay\<close> catches its own
  errors and always returns a buffer, so it is not a source of failure.
\<close>

definition try_body :: "env \<Rightarrow> string \<Rightarrow> string \<Rightarrow> string \<Rightarrow> js_error + string" where
  "try_body E sid kid bid =
     (case map_of BACKGROUNDS bid of
        None \<Rightarrow>
          if protoHas E bid then Inl (joinError E)
          else Inl (Error ''Invalid background selection'')
      | Some file \<Rightarrow>
          (case readFile E file of
             Inl e \<Rightarrow> Inl e
           | Inr bg \<Rightarrow>
               (case generateContent E of
                  Inl e \<Rightarrow> Inl e
                | Inr parts \<Rightarrow>
                    (case find truthy parts of
                       None \<Rightarrow> Inl (Error ''No image generated'')
                     | Some d \<Rightarrow>
                         (let filename = artifact_name kid (fileTime E) sid in
                          case writeFile E filename of
                            Some e \<Rightarrow> Inl e
                          | None \<Rightarrow> Inr filename)))))"

text \<open>The object returned on success (lines 554-562).\<close>

record gen_result =
  success :: bool
  imageUrl :: string
  result_message :: string
  sessionId :: string
  result_kioskId :: string
  queueSize :: nat
  processingTime :: int

text \<open>The terminal step of one invocation: success branch or \<open>catch\<close> block.\<close>

definition pg_settle :: "string \<Rightarrow> string \<Rightarrow> js_error + string \<Rightarrow> int \<Rightarrow> server \<Rightarrow> server" where
  "pg_settle sid kid outcome t s =
     (case outcome of
        Inr filename \<Rightarrow> pg_complete sid kid filename t s
      | Inl e \<Rightarrow> pg_fail sid kid e t s)"

text \<open>
  One whole call of \<open>processGeneration\<close> with nothing else running in between: the new
  state and either the thrown error or the returned object.
\<close>

definition processGeneration ::
  "env \<Rightarrow> string \<Rightarrow> int \<Rightarrow> int \<Rightarrow> gen_options \<Rightarrow> string \<Rightarrow> server \<Rightarrow> server \<times> (js_error + gen_result)" where
  "processGeneration E sid t0 tA opts kid s =
     (let s1 = pg_begin sid kid opts t0 tA s
      in case try_body E sid kid (fst opts) of
           Inl e \<Rightarrow> (pg_fail sid kid e (endClock E) s1, Inl e)
         | Inr filename \<Rightarrow>
             (pg_complete sid kid filename (endClock E) s1,
              Inr \<lparr>success = True, imageUrl = ''/outputs/'' @ filename,
                   result_message = ''Marathon photo generated successfully!'',
                   sessionId = sid, result_kioskId = kid,
                   queueSize = queueSizeAtReturn E,
                   processingTime = returnClock E - t0\<rparr>))"

section \<open>Jobs running side by side\<close>

text \<open>
  \<open>processGeneration\<close> is an \<open>async\<close> function: it runs lines 489-504 in one turn of
  the event loop, is suspended at its \<open>await\<close>s, and later runs either the success branch
  or the \<open>catch\<close> block, once. Between the two, other invocations and the session sweep
  may run. \<open>pending\<close> holds the suspended invocations (their \<open>sessionId\<close> and
  \<open>kioskId\<close>); \<open>issued\<close> holds every value \<open>uuidv4()\<close> has returned, and a new
  invocation gets a value not among them.
\<close>

record system =
  srv :: server
  pending :: "(string \<times> string) list"
  issued :: "string list"

definition initial_system :: system where
  "initial_system = \<lparr>srv = initial_server, pending = [], issued = []\<rparr>"

text \<open>Lines 727-739: the sweep of sessions that started more than an hour ago.\<close>

definition expired :: "int \<Rightarrow> session \<Rightarrow> bool" where
  "expired oneHourAgo x = (case startTime x of None \<Rightarrow> False | Some t \<Rightarrow> t < oneHourAgo)"

definition session_reaper :: "int \<Rightarrow> server \<Rightarrow> server" where
  "session_reaper now s =
     s\<lparr>activeSessions :=
         filter (\<lambda>p. \<not> expired (now - 60 * 60 * 1000) (snd p)) (activeSessions s)\<rparr>"

datatype event =
    Begin string string gen_options int int
  | Settle string "js_error + string" int
  | SessionReaper int

fun is_sweep :: "event \<Rightarrow> bool" where
  "is_sweep (SessionReaper now) = True"
| "is_sweep ev = False"

fun step :: "event \<Rightarrow> system \<Rightarrow> system option" where
  "step (Begin sid kid opts t0 tA) y =
     (if sid \<in> set (issued y) then None
      else Some \<lparr>srv = pg_begin sid kid opts t0 tA (srv y),
                 pending = (sid, kid) # pending y,
                 issued = sid # issued y\<rparr>)"
| "step (Settle sid outcome t) y =
     (case map_of (pending y) sid of
        None \<Rightarrow> None
      | Some kid \<Rightarrow>
          Some \<lparr>srv = pg_settle sid kid outcome t (srv y),
                pending = filter (\<lambda>p. fst p \<noteq> sid) (pending y),
                issued = issued y\<rparr>)"
| "step (SessionReaper now) y =
     Some \<lparr>srv = session_reaper now (srv y), pending = pending y, issued = issued y\<rparr>"

fun run :: "event list \<Rightarrow> system \<Rightarrow> system option" where
  "run [] y = Some y"
| "run (ev # evs) y = (case step ev y of None \<Rightarrow> None | Some y' \<Rightarrow> run evs y')"

section \<open>POST /api/generate\<close>

record request =
  x_kiosk_id :: "string option"
  body_backgroundId :: "string option"
  body_gender :: "string option"
  body_prominence :: "string option"
  req_file :: "(string \<times> string) option"

datatype jval = JStr string | JNum int | JBool bool

record response =
  code :: nat
  body :: "(string \<times> jval) list"

text \<open>\<open>req.headers['x-kiosk-id'] || 'unknown'\<close>\<close>

definition header_kioskId :: "request \<Rightarrow> string" where
  "header_kioskId req = (if truthy (x_kiosk_id req) then the (x_kiosk_id req) else ''unknown'')"

text \<open>The closure handed to \<open>generationQueue.add\<close>: buffer, mimetype, options, kiosk id.\<close>

record task =
  task_buffer :: string
  task_mimetype :: string
  task_options :: gen_options
  task_kioskId :: string

datatype admission = Reply response | Add task nat

text \<open>
  Lines 619-660, up to the call of \<open>generationQueue.add\<close>: \<open>qsize\<close> is
  \<open>generationQueue.size\<close>.
\<close>

definition generate_admit :: "request \<Rightarrow> nat \<Rightarrow> admission" where
  "generate_admit req qsize =
     (let kid = header_kioskId req;
          prom = (case body_prominence req of None \<Rightarrow> ''medium'' | Some p \<Rightarrow> p)
      in if \<not> truthy (body_backgroundId req) \<or> \<not> truthy (body_gender req) \<or> req_file req = None
         then Reply \<lparr>code = 400, body = [(''error'', JStr ''Missing required fields'')]\<rparr>
         else if qsize > 10
         then Reply \<lparr>code = 503,
                     body = [(''error'', JStr ''Server is busy, please try again''),
                             (''queueSize'', JNum (int qsize))]\<rparr>
         else Add \<lparr>task_buffer = fst (the (req_file req)), task_mimetype = snd (the (req_file req)),
                   task_options = (the (body_backgroundId req), the (body_gender req), prom),
                   task_kioskId = kid\<rparr>
                  (if kid = ''kiosk-3'' then 1 else 0))"

definition result_json :: "gen_result \<Rightarrow> (string \<times> jval) list" where
  "result_json r =
     [(''success'', JBool (success r)), (''imageUrl'', JStr (imageUrl r)),
      (''message'', JStr (result_message r)), (''sessionId'', JStr (sessionId r)),
      (''kioskId'', JStr (result_kioskId r)), (''queueSize'', JNum (int (queueSize r))),
      (''processingTime'', JNum (processingTime r))]"

text \<open>
  Lines 662-670: what the handler does with the settled promise of \<open>generationQueue.add\<close>:
  the lines written with \<open>console.error\<close> and the response.
\<close>

definition generate_reply :: "string \<Rightarrow> js_error + gen_result \<Rightarrow> log_line list \<times> response" where
  "generate_reply kid outcome =
     (case outcome of
        Inr r \<Rightarrow> ([], \<lparr>code = 200, body = result_json r\<rparr>)
      | Inl e \<Rightarrow>
          ([(''['' @ kid @ ''] Error:'', e)],
           \<lparr>code = 500,
            body = [(''error'', JStr ''Failed to generate image''),
                    (''details'', JStr (message e)),
                    (''kioskId'', JStr kid)]\<rparr>))"

text \<open>
  The handler from request to response when the queue runs the task without anything in
  between.
\<close>

definition post_generate ::
  "env \<Rightarrow> string \<Rightarrow> int \<Rightarrow> int \<Rightarrow> request \<Rightarrow> nat \<Rightarrow> server \<Rightarrow> server \<times> response" where
  "post_generate E sid t0 tA req qsize s =
     (case generate_admit req qsize of
        Reply r \<Rightarrow> (s, r)
      | Add tk prio \<Rightarrow>
          (case processGeneration E sid t0 tA (task_options tk) (task_kioskId tk) s of
             (s', outcome) \<Rightarrow>
               (case generate_reply (header_kioskId req) outcome of
                  (lines, r) \<Rightarrow> (s'\<lparr>console := console s' @ lines\<rparr>, r))))"

section \<open>GET /api/monitor\<close>

datatype jnum = Null | NaN | Num int

record session_view =
  view_id :: string
  view_session :: session
  duration :: jnum

text \<open>\<open>session.endTime ? session.endTime - session.startTime : null\<close>\<close>

definition duration_of :: "session \<Rightarrow> jnum" where
  "duration_of x =
     (case endTime x of
        None \<Rightarrow> Null
      | Some e \<Rightarrow>
          if e = 0 then Null
          else (case startTime x of None \<Rightarrow> NaN | Some b \<Rightarrow> Num (e - b)))"

definition recentSessions :: "server \<Rightarrow> session_view list" where
  "recentSessions s =
     map (\<lambda>p. \<lparr>view_id = slice8 (fst p), view_session = snd p, duration = duration_of (snd p)\<rparr>)
       (slice_last20 (activeSessions s))"

text \<open>
  The monitor's answer without the process figures (uptime, memory usage, timestamp).
\<close>

record monitor =
  kiosks :: "string \<rightharpoonup> kiosk_stats"
  monitor_queueSize :: nat
  queuePending :: nat
  totalSessions :: nat
  monitor_recentSessions :: "session_view list"

definition get_monitor :: "nat \<Rightarrow> nat \<Rightarrow> server \<Rightarrow> monitor" where
  "get_monitor qsize qpending s =
     \<lparr>kiosks = kioskStats s, monitor_queueSize = qsize, queuePending = qpending,
      totalSessions = length (activeSessions s), monitor_recentSessions = recentSessions s\<rparr>"

section \<open>The hourly sweep of the outputs directory\<close>

text \<open>
  Lines 742-760. \<open>readdir\<close>, \<open>stat\<close> and \<open>unlink\<close> are the outcomes of the three
  \<open>fs\<close> calls; \<open>stat\<close> gives \<open>mtimeMs\<close>, taken as a whole number of milliseconds
  (with \<open>now\<close> and \<open>maxAge\<close> whole, \<open>now - mtimeMs > maxAge\<close> does not depend on the
  fraction).
\<close>

record fs_env =
  readdir :: "js_error + string list"
  stat :: "string \<Rightarrow> js_error + int"
  unlink :: "string \<Rightarrow> js_error option"

definition maxAge :: int where
  "maxAge = 4 * 60 * 60 * 1000"

text \<open>
  The \<open>for\<close> loop: the files unlinked so far, and the error that ended the loop if one
  was thrown.
\<close>

fun sweep_files :: "fs_env \<Rightarrow> int \<Rightarrow> string list \<Rightarrow> string list \<times> js_error option" where
  "sweep_files F now [] = ([], None)"
| "sweep_files F now (f # fs) =
     (case stat F f of
        Inl e \<Rightarrow> ([], Some e)
      | Inr mtimeMs \<Rightarrow>
          if now - mtimeMs > maxAge
          then (case unlink F f of
                  Some e \<Rightarrow> ([], Some e)
                | None \<Rightarrow> (case sweep_files F now fs of (del, r) \<Rightarrow> (f # del, r)))
          else sweep_files F now fs)"

text \<open>The scheduled job: the files it deleted and what it wrote with \<open>console.error\<close>.\<close>

definition cleanup_job :: "fs_env \<Rightarrow> int \<Rightarrow> string list \<times> log_line list" where
  "cleanup_job F now =
     (case readdir F of
        Inl e \<Rightarrow> ([], [(''Cleanup error:'', e)])
      | Inr files \<Rightarrow>
          (case sweep_files F now files of
             (del, None) \<Rightarrow> (del, [])
           | (del, Some e) \<Rightarrow> (del, [(''Cleanup error:'', e)])))"

section \<open>Invariants of the running system\<close>

text \<open>
  What holds in every state the system can reach: session ids and pending ids are
  distinct and have been issued, and the session of a pending invocation, when it is still
  in the map, is \<open>processing\<close>.
\<close>

definition sys_inv :: "system \<Rightarrow> bool" where
  "sys_inv y \<longleftrightarrow>
     distinct (map fst (activeSessions (srv y))) \<and>
     distinct (map fst (pending y)) \<and>
     fst ` set (activeSessions (srv y)) \<subseteq> set (issued y) \<and>
     fst ` set (pending y) \<subseteq> set (issued y) \<and>
     (\<forall>p \<in> set (pending y). \<forall>x. map_of (activeSessions (srv y)) (fst p) = Some x \<longrightarrow> status x = Processing)"

text \<open>The number of suspended invocations of a kiosk.\<close>

definition in_flight :: "string \<Rightarrow> system \<Rightarrow> nat" where
  "in_flight k y = length (filter (\<lambda>p. snd p = k) (pending y))"

definition stats_inv :: "system \<Rightarrow> bool" where
  "stats_inv y \<longleftrightarrow>
     dom (kioskStats (srv y)) = set kiosk_ids \<and>
     (\<forall>k st. kioskStats (srv y) k = Some st \<longrightarrow>
        completed st + failed st + in_flight k y = totalCount st)"

section \<open>Views of the outputs sweep\<close>

text \<open>
  What handling one file throws, if anything: the \<open>stat\<close> error, or the \<open>unlink\<close> error
  when the file is old enough to be deleted.
\<close>

definition file_error :: "fs_env \<Rightarrow> int \<Rightarrow> string \<Rightarrow> js_error option" where
  "file_error F now f =
     (case stat F f of
        Inl e \<Rightarrow> Some e
      | Inr mtimeMs \<Rightarrow> if now - mtimeMs > maxAge then unlink F f else None)"

text \<open>The file can be examined and is older than four hours.\<close>

definition is_old :: "fs_env \<Rightarrow> int \<Rightarrow> string \<Rightarrow> bool" where
  "is_old F now f = (case stat F f of Inl e \<Rightarrow> False | Inr mtimeMs \<Rightarrow> now - mtimeMs > maxAge)"

text \<open>The error thrown at the first file whose handling throws.\<close>

definition first_error :: "fs_env \<Rightarrow> int \<Rightarrow> string list \<Rightarrow> js_error option" where
  "first_error F now files =
     (case dropWhile (\<lambda>f. file_error F now f = None) files of
        [] \<Rightarrow> None
      | f # rest \<Rightarrow> file_error F now f)"

section \<open>Sample runs\<close>

definition demo_before :: "event list" where
  "demo_before =
     [Begin ''s1'' ''kiosk-1'' (''tcs50-vondelpark'', ''male'', ''medium'') 1000 1001,
      Begin ''s2'' ''kiosk-9'' (''nowhere'', ''female'', ''low'') 1500 1501,
      Settle ''s1'' (Inr ''marathon_kiosk-1_2000_s1.png'') 2001]"

definition demo_after :: "event list" where
  "demo_after =
     [Settle ''s2'' (Inl (Error ''Invalid background selection'')) 2500,
      Begin ''s3'' ''kiosk-1'' (''tcs50-vondelpark'', ''male'', ''medium'') 3000 3001,
      Settle ''s3'' (Inl (Error ''No image generated'')) 4000]"

text \<open>A sweep long after the sample sessions started.\<close>

definition demo_sweep :: "event list" where
  "demo_sweep = [SessionReaper 4000000]"

text \<open>
  A directory of two files where \<open>stat\<close> fails on the first (it has just been removed)
  and the second was last modified at time 0.
\<close>

definition demo_fs :: fs_env where
  "demo_fs =
     \<lparr>readdir = Inr [''a.png'', ''b.png''],
      stat = (\<lambda>f. if f = ''a.png'' then Inl (Error ''ENOENT'') else Inr 0),
      unlink = (\<lambda>f. None)\<rparr>"

text \<open>A directory where every call succeeds, and one that cannot be listed.\<close>

definition demo_fs_healthy :: fs_env where
  "demo_fs_healthy =
     \<lparr>readdir = Inr [''a.png'', ''b.png'', ''c.png''],
      stat = (\<lambda>f. if f = ''b.png'' then Inr 5000 else Inr 0),
      unlink = (\<lambda>f. None)\<rparr>"

definition demo_fs_unreadable :: fs_env where
  "demo_fs_unreadable =
     \<lparr>readdir = Inl (Error ''EACCES''), stat = (\<lambda>f. Inr 0), unlink = (\<lambda>f. None)\<rparr>"

text \<open>
  An environment in which every external call succeeds, a complete request without a
  kiosk header for a background that does not exist, and a request without \<open>gender\<close>.
\<close>

definition demo_env :: env where
  "demo_env =
     \<lparr>protoHas = (\<lambda>k. k = ''constructor''),
      joinError = Error ''The path argument must be of type string. Received undefined'',
      readFile = (\<lambda>f. Inr ''PNG''),
      generateContent = Inr [None, Some ''aGVsbG8=''],
      writeFile = (\<lambda>f. None),
      fileTime = 2000, endClock = 2001, returnClock = 2002, queueSizeAtReturn = 0\<rparr>"

definition demo_request :: request where
  "demo_request =
     \<lparr>x_kiosk_id = None, body_backgroundId = Some ''bg-unknown'',
      body_gender = Some ''female'', body_prominence = None,
      req_file = Some (''JPEG'', ''image/jpeg'')\<rparr>"

definition demo_incomplete :: request where
  "demo_incomplete =
     \<lparr>x_kiosk_id = Some ''kiosk-2'', body_backgroundId = Some ''tcs50-vondelpark'',
      body_gender = None, body_prominence = None,
      req_file = Some (''JPEG'', ''image/jpeg'')\<rparr>"

text \<open>A complete request of the priority kiosk for an existing background.\<close>

definition demo_valid :: request where
  "demo_valid =
     \<lparr>x_kiosk_id = Some ''kiosk-3'', body_backgroundId = Some ''tcs50-vondelpark'',
      body_gender = Some ''male'', body_prominence = Some ''low'',
      req_file = Some (''JPEG'', ''image/jpeg'')\<rparr>"

lemmas demo_simps =
  demo_before_def demo_after_def initial_system_def initial_server_def pg_begin_def
  pg_settle_def pg_complete_def pg_fail_def completed_session_def failed_session_def
  bump_total_def bump_completed_def bump_failed_def set_lastActive_def kiosk_ids_def
  zero_stats_def session_reaper_def expired_def

lemmas demo_req_simps =
  demo_env_def demo_request_def demo_incomplete_def generate_admit_def
  header_kioskId_def truthy_def try_body_def BACKGROUNDS_def Let_def

section \<open>The session map under the three kinds of step\<close>

lemma sessions_pg_begin:
  "map_of (activeSessions (pg_begin sid kid opts t0 tA s)) k =
     (if k = sid then
        Some \<lparr>kioskId = Some kid, startTime = Some t0, status = Processing,
              backgroundId = Some (fst opts), gender = Some (fst (snd opts)),
              prominence = Some (snd (snd opts)), endTime = None, outputFile = None,
              error = None\<rparr>
      else map_of (activeSessions s) k)"
  by (cases opts) (simp add: pg_begin_def update_conv')

lemma sessions_pg_settle_other:
  "k \<noteq> sid \<Longrightarrow>
   map_of (activeSessions (pg_settle sid kid outcome t s)) k = map_of (activeSessions s) k"
  by (cases outcome) (simp_all add: pg_settle_def pg_complete_def pg_fail_def update_conv')

lemma sessions_pg_settle_same:
  "\<exists>x. map_of (activeSessions (pg_settle sid kid outcome t s)) sid = Some x \<and> status x \<noteq> Processing"
  by (cases outcome)
     (auto simp: pg_settle_def pg_complete_def pg_fail_def update_conv'
        completed_session_def failed_session_def split: option.splits)

lemma keys_pg_begin:
  "fst ` set (activeSessions (pg_begin sid kid opts t0 tA s)) = insert sid (fst ` set (activeSessions s))"
  by (cases opts) (simp add: pg_begin_def dom_update)

lemma keys_pg_settle:
  "fst ` set (activeSessions (pg_settle sid kid outcome t s)) = insert sid (fst ` set (activeSessions s))"
  by (cases outcome) (simp_all add: pg_settle_def pg_complete_def pg_fail_def dom_update)

lemma distinct_pg_begin:
  "distinct (map fst (activeSessions s)) \<Longrightarrow>
   distinct (map fst (activeSessions (pg_begin sid kid opts t0 tA s)))"
  by (cases opts) (simp add: pg_begin_def distinct_update)

lemma distinct_pg_settle:
  "distinct (map fst (activeSessions s)) \<Longrightarrow>
   distinct (map fst (activeSessions (pg_settle sid kid outcome t s)))"
  by (cases outcome) (simp_all add: pg_settle_def pg_complete_def pg_fail_def distinct_update)

lemma lookup_after_filter:
  assumes "distinct (map fst xs)"
  shows "map_of (filter P xs) k = None \<or> map_of (filter P xs) k = map_of xs k"
  using assms
proof (induction xs)
  case Nil
  then show ?case by simp
next
  case (Cons p xs)
  from Cons.prems have fresh: "fst p \<notin> fst ` set xs" and d: "distinct (map fst xs)"
    by simp_all
  show ?case
  proof (cases "k = fst p")
    case True
    with fresh have "k \<notin> fst ` set (filter P xs)"
      by auto
    then have "map_of (filter P xs) k = None"
      by (simp add: map_of_eq_None_iff)
    with True show ?thesis
      by (cases p) simp
  next
    case False
    with Cons.IH [OF d] show ?thesis
      by (cases p) simp
  qed
qed

lemma sessions_reaper:
  "distinct (map fst (activeSessions s)) \<Longrightarrow>
   map_of (activeSessions (session_reaper now s)) k = None \<or>
   map_of (activeSessions (session_reaper now s)) k = map_of (activeSessions s) k"
  unfolding session_reaper_def by (simp add: lookup_after_filter)

lemma keys_reaper:
  "fst ` set (activeSessions (session_reaper now s)) \<subseteq> fst ` set (activeSessions s)"
  by (auto simp: session_reaper_def)

lemma distinct_reaper:
  "distinct (map fst (activeSessions s)) \<Longrightarrow>
   distinct (map fst (activeSessions (session_reaper now s)))"
  by (simp add: session_reaper_def distinct_map_filter)

section \<open>Reachable states satisfy the invariant\<close>

lemma sys_inv_initial: "sys_inv initial_system"
  by (simp add: sys_inv_def initial_system_def initial_server_def)

lemma sys_inv_begin:
  assumes inv: "sys_inv y" and st: "step (Begin sid kid opts t0 tA) y = Some y'"
  shows "sys_inv y'"
proof -
  from st have fresh: "sid \<notin> set (issued y)"
    and y': "y' = \<lparr>srv = pg_begin sid kid opts t0 tA (srv y), pending = (sid, kid) # pending y,
                   issued = sid # issued y\<rparr>"
    by (auto split: if_splits)
  from inv fresh have np: "sid \<notin> fst ` set (pending y)"
    by (auto simp: sys_inv_def)
  show ?thesis
    using inv fresh np unfolding sys_inv_def y'
    by (auto simp: distinct_pg_begin keys_pg_begin sessions_pg_begin)
qed

lemma sys_inv_settle:
  assumes inv: "sys_inv y" and st: "step (Settle sid outcome t) y = Some y'"
  shows "sys_inv y'"
proof -
  from st obtain kid where pk: "map_of (pending y) sid = Some kid"
    and y': "y' = \<lparr>srv = pg_settle sid kid outcome t (srv y),
                   pending = filter (\<lambda>p. fst p \<noteq> sid) (pending y), issued = issued y\<rparr>"
    by (auto split: option.splits)
  from pk have "(sid, kid) \<in> set (pending y)"
    by (rule map_of_SomeD)
  then have "sid \<in> fst ` set (pending y)"
    by force
  with inv have iss: "sid \<in> set (issued y)"
    by (auto simp: sys_inv_def)
  show ?thesis
    using inv iss unfolding sys_inv_def y'
    by (auto simp: distinct_pg_settle keys_pg_settle sessions_pg_settle_other distinct_map_filter)
qed

lemma sys_inv_sweep:
  assumes inv: "sys_inv y" and st: "step (SessionReaper now) y = Some y'"
  shows "sys_inv y'"
proof -
  let ?s' = "session_reaper now (srv y)"
  from st have y': "y' = \<lparr>srv = ?s', pending = pending y, issued = issued y\<rparr>"
    by simp
  from inv have d: "distinct (map fst (activeSessions (srv y)))"
    and dp: "distinct (map fst (pending y))"
    and ks: "fst ` set (activeSessions (srv y)) \<subseteq> set (issued y)"
    and kp: "fst ` set (pending y) \<subseteq> set (issued y)"
    and pr: "\<forall>p \<in> set (pending y). \<forall>x.
               map_of (activeSessions (srv y)) (fst p) = Some x \<longrightarrow> status x = Processing"
    by (simp_all add: sys_inv_def)
  have keep: "map_of (activeSessions (srv y)) k = Some x"
    if "map_of (activeSessions ?s') k = Some x" for k x
    using that sessions_reaper [OF d, of now k] by auto
  have keys: "fst ` set (activeSessions ?s') \<subseteq> set (issued y)"
    using keys_reaper ks by (rule subset_trans)
  have proc: "\<forall>p \<in> set (pending y). \<forall>x.
      map_of (activeSessions ?s') (fst p) = Some x \<longrightarrow> status x = Processing"
    using pr keep by blast
  show ?thesis
    unfolding sys_inv_def y' using distinct_reaper [OF d, of now] dp keys kp proc
    by simp
qed

lemma sys_inv_step: "sys_inv y \<Longrightarrow> step ev y = Some y' \<Longrightarrow> sys_inv y'"
  by (cases ev) (auto intro: sys_inv_begin sys_inv_settle sys_inv_sweep)

lemma sys_inv_run: "sys_inv y \<Longrightarrow> run evs y = Some y' \<Longrightarrow> sys_inv y'"
proof (induction evs arbitrary: y)
  case Nil
  then show ?case by simp
next
  case (Cons ev evs)
  then show ?case
    by (auto split: option.splits dest: sys_inv_step)
qed

lemma settled_step:
  assumes inv: "sys_inv y" and st: "step ev y = Some y'"
    and iss: "sid \<in> set (issued y)" and np: "sid \<notin> fst ` set (pending y)"
  shows "sid \<in> set (issued y') \<and> sid \<notin> fst ` set (pending y') \<and>
         (map_of (activeSessions (srv y')) sid = map_of (activeSessions (srv y)) sid \<or>
          is_sweep ev \<and> map_of (activeSessions (srv y')) sid = None)"
proof (cases ev)
  case (Begin sid' kid opts t0 tA)
  with st iss have "sid' \<noteq> sid"
    by (auto split: if_splits)
  with st iss np Begin show ?thesis
    by (auto split: if_splits simp: sessions_pg_begin)
next
  case (Settle sid' outcome t)
  with st obtain kid where pk: "map_of (pending y) sid' = Some kid"
    by (auto split: option.splits)
  then have "(sid', kid) \<in> set (pending y)"
    by (rule map_of_SomeD)
  then have "sid' \<in> fst ` set (pending y)"
    by force
  with np have "sid \<noteq> sid'"
    by auto
  with st iss np Settle pk show ?thesis
    by (auto simp: sessions_pg_settle_other)
next
  case (SessionReaper now)
  from inv have d: "distinct (map fst (activeSessions (srv y)))"
    by (simp add: sys_inv_def)
  from st iss np SessionReaper sessions_reaper [OF d, of now sid] show ?thesis
    by auto
qed

lemma settled_run:
  assumes "sys_inv y" and "run evs y = Some y'"
    and "sid \<in> set (issued y)" and "sid \<notin> fst ` set (pending y)"
    and "map_of (activeSessions (srv y)) sid = Some x \<or> map_of (activeSessions (srv y)) sid = None"
  shows "sid \<in> set (issued y') \<and> sid \<notin> fst ` set (pending y') \<and>
         (map_of (activeSessions (srv y')) sid = Some x \<or> map_of (activeSessions (srv y')) sid = None) \<and>
         (\<not> list_ex is_sweep evs \<longrightarrow>
            map_of (activeSessions (srv y')) sid = map_of (activeSessions (srv y)) sid)"
  using assms
proof (induction evs arbitrary: y)
  case Nil
  then show ?case by simp
next
  case (Cons ev evs)
  from Cons.prems(2) obtain y1 where s1: "step ev y = Some y1" and r1: "run evs y1 = Some y'"
    by (auto split: option.splits)
  have inv1: "sys_inv y1"
    using Cons.prems(1) s1 by (rule sys_inv_step)
  from settled_step [OF Cons.prems(1) s1 Cons.prems(3) Cons.prems(4)]
  have a: "sid \<in> set (issued y1)" and b: "sid \<notin> fst ` set (pending y1)"
    and c: "map_of (activeSessions (srv y1)) sid = map_of (activeSessions (srv y)) sid \<or>
            is_sweep ev \<and> map_of (activeSessions (srv y1)) sid = None"
    by blast+
  from c Cons.prems(5)
  have d: "map_of (activeSessions (srv y1)) sid = Some x \<or> map_of (activeSessions (srv y1)) sid = None"
    by auto
  from Cons.IH [OF inv1 r1 a b d] c show ?case
    by auto
qed

lemma terminal_is_settled:
  assumes inv: "sys_inv y" and x: "map_of (activeSessions (srv y)) sid = Some x"
    and t: "status x \<noteq> Processing"
  shows "sid \<in> set (issued y) \<and> sid \<notin> fst ` set (pending y)"
proof -
  from x have "(sid, x) \<in> set (activeSessions (srv y))"
    by (rule map_of_SomeD)
  then have "sid \<in> fst ` set (activeSessions (srv y))"
    by force
  with inv have "sid \<in> set (issued y)"
    by (auto simp: sys_inv_def)
  moreover have "sid \<notin> fst ` set (pending y)"
    using inv x t by (auto simp: sys_inv_def)
  ultimately show ?thesis by blast
qed

section \<open>Kiosk counters\<close>

lemma stats_pg_begin:
  "kioskStats (pg_begin sid kid opts t0 tA s) k =
     (case kioskStats s k of
        None \<Rightarrow> None
      | Some st \<Rightarrow>
          if k = kid then Some (st\<lparr>totalCount := totalCount st + 1, lastActive := Some tA\<rparr>)
          else Some st)"
  by (cases opts)
     (auto simp: pg_begin_def bump_total_def set_lastActive_def split: option.splits)

lemma stats_pg_settle:
  "kioskStats (pg_settle sid kid outcome t s) k =
     (case kioskStats s k of
        None \<Rightarrow> None
      | Some st \<Rightarrow>
          if k = kid then
            (case outcome of
               Inl e \<Rightarrow> Some (st\<lparr>failed := failed st + 1\<rparr>)
             | Inr f \<Rightarrow> Some (st\<lparr>completed := completed st + 1\<rparr>))
          else Some st)"
  by (cases outcome)
     (auto simp: pg_settle_def pg_complete_def pg_fail_def bump_completed_def bump_failed_def
        split: option.splits)

lemma stats_reaper: "kioskStats (session_reaper now s) = kioskStats s"
  by (simp add: session_reaper_def)

lemma count_after_removal:
  "distinct (map fst ps) \<Longrightarrow> map_of ps sid = Some kid \<Longrightarrow>
   length (filter (\<lambda>p. snd p = k) ps) =
     length (filter (\<lambda>p. snd p = k) (filter (\<lambda>p. fst p \<noteq> sid) ps)) + (if kid = k then 1 else 0)"
proof (induction ps)
  case Nil
  then show ?case by simp
next
  case (Cons p ps)
  obtain a b where p: "p = (a, b)" by (cases p)
  show ?case
  proof (cases "a = sid")
    case True
    with Cons.prems p have b: "b = kid" and notin: "sid \<notin> fst ` set ps"
      by auto
    from notin have "filter (\<lambda>p. fst p \<noteq> sid) ps = ps"
      by (auto simp: filter_id_conv)
    with True b p show ?thesis by simp
  next
    case False
    with Cons.prems p have "distinct (map fst ps)" and "map_of ps sid = Some kid"
      by auto
    from Cons.IH [OF this] False p show ?thesis by simp
  qed
qed

lemma dom_eq_by_cases:
  "(\<And>k. (f k = None) = (g k = None)) \<Longrightarrow> dom f = dom g"
  by (auto simp: dom_def)

lemma stats_inv_initial: "stats_inv initial_system"
  by (auto simp: stats_inv_def initial_system_def initial_server_def in_flight_def
      kiosk_ids_def zero_stats_def dom_def split: if_splits)

lemma stats_inv_step:
  assumes inv: "sys_inv y" and sinv: "stats_inv y" and st: "step ev y = Some y'"
  shows "stats_inv y'"
proof (cases ev)
  case (Begin sid kid opts t0 tA)
  with st have y': "y' = \<lparr>srv = pg_begin sid kid opts t0 tA (srv y),
      pending = (sid, kid) # pending y, issued = sid # issued y\<rparr>"
    by (auto split: if_splits)
  have "dom (kioskStats (srv y')) = dom (kioskStats (srv y))"
    by (rule dom_eq_by_cases) (simp add: y' stats_pg_begin split: option.splits)
  moreover have "completed st + failed st + in_flight k y' = totalCount st"
    if "kioskStats (srv y') k = Some st" for k st
    using that sinv
    by (auto simp: y' stats_pg_begin stats_inv_def in_flight_def split: option.splits if_splits)
  ultimately show ?thesis
    using sinv by (simp add: stats_inv_def)
next
  case (Settle sid outcome t)
  with st obtain kid where pk: "map_of (pending y) sid = Some kid"
    and y': "y' = \<lparr>srv = pg_settle sid kid outcome t (srv y),
                   pending = filter (\<lambda>p. fst p \<noteq> sid) (pending y), issued = issued y\<rparr>"
    by (auto split: option.splits)
  from inv have dp: "distinct (map fst (pending y))"
    by (simp add: sys_inv_def)
  have cnt: "in_flight k y = in_flight k y' + (if kid = k then 1 else 0)" for k
    using count_after_removal [OF dp pk, of k] by (simp add: in_flight_def y')
  have "dom (kioskStats (srv y')) = dom (kioskStats (srv y))"
    by (rule dom_eq_by_cases) (simp add: y' stats_pg_settle split: option.splits sum.splits)
  moreover have "completed st + failed st + in_flight k y' = totalCount st"
    if "kioskStats (srv y') k = Some st" for k st
  proof -
    from that obtain st0 where st0: "kioskStats (srv y) k = Some st0"
      by (auto simp: y' stats_pg_settle split: option.splits)
    with sinv have eq: "completed st0 + failed st0 + in_flight k y = totalCount st0"
      by (simp add: stats_inv_def)
    from that st0 eq cnt [of k] show ?thesis
      by (cases outcome) (auto simp: y' stats_pg_settle split: if_splits)
  qed
  ultimately show ?thesis
    using sinv by (simp add: stats_inv_def)
next
  case (SessionReaper now)
  with st have "kioskStats (srv y') = kioskStats (srv y)" and "pending y' = pending y"
    by (auto simp: stats_reaper)
  with sinv show ?thesis
    by (simp add: stats_inv_def in_flight_def)
qed

lemma stats_inv_run:
  "sys_inv y \<Longrightarrow> stats_inv y \<Longrightarrow> run evs y = Some y' \<Longrightarrow> stats_inv y'"
proof (induction evs arbitrary: y)
  case Nil
  then show ?case by simp
next
  case (Cons ev evs)
  from Cons.prems(3) obtain y1 where s1: "step ev y = Some y1" and r1: "run evs y1 = Some y'"
    by (auto split: option.splits)
  from Cons.prems(1) s1 have "sys_inv y1"
    by (rule sys_inv_step)
  moreover from Cons.prems(1,2) s1 have "stats_inv y1"
    by (rule stats_inv_step)
  ultimately show ?case
    using r1 by (rule Cons.IH)
qed

section \<open>Session lifecycle\<close>

text \<open>
  C1. Once a session's status is \<open>completed\<close> or \<open>failed\<close>, no later step changes any of
  its fields: after any further events it is the same record, or it has been removed by the
  hourly session sweep (and without a sweep it is still there). The invocation that owned it
  has no terminal step left (no \<open>Settle\<close> for its id is possible), and no new invocation
  gets its id. Since a status is one of \<open>processing\<close>, \<open>completed\<close>, \<open>failed\<close>, the only
  status change a session ever sees is the single one out of \<open>processing\<close>.
\<close>

theorem terminal_session_frozen:
  assumes reach: "run evs0 initial_system = Some y"
    and later: "run evs y = Some y'"
    and x: "map_of (activeSessions (srv y)) sid = Some x"
    and t: "status x \<noteq> Processing"
  shows "(map_of (activeSessions (srv y')) sid = Some x \<or>
          map_of (activeSessions (srv y')) sid = None) \<and>
         (\<not> list_ex is_sweep evs \<longrightarrow> map_of (activeSessions (srv y')) sid = Some x) \<and>
         step (Settle sid outcome t1) y' = None \<and>
         step (Begin sid kid opts t0 tA) y' = None"
proof -
  have inv: "sys_inv y"
    using sys_inv_initial reach by (rule sys_inv_run)
  from terminal_is_settled [OF inv x t]
  have iss: "sid \<in> set (issued y)" and np: "sid \<notin> fst ` set (pending y)"
    by blast+
  from settled_run [OF inv later iss np] x
  have a: "sid \<in> set (issued y')" and b: "sid \<notin> fst ` set (pending y')"
    and c: "map_of (activeSessions (srv y')) sid = Some x \<or> map_of (activeSessions (srv y')) sid = None"
    and d: "\<not> list_ex is_sweep evs \<longrightarrow> map_of (activeSessions (srv y')) sid = Some x"
    by auto
  from b have "map_of (pending y') sid = None"
    by (simp add: map_of_eq_None_iff)
  with a c d show ?thesis
    by simp
qed

theorem terminal_session_frozen_witness:
  "\<exists>y y' y'' x. run demo_before initial_system = Some y \<and> run demo_after y = Some y' \<and>
     map_of (activeSessions (srv y)) ''s1'' = Some x \<and> status x = Completed \<and>
     \<not> list_ex is_sweep demo_after \<and>
     map_of (activeSessions (srv y')) ''s1'' = Some x \<and>
     step (Settle ''s1'' (Inl (Error ''late'')) 5000) y' = None \<and>
     run demo_sweep y = Some y'' \<and> map_of (activeSessions (srv y'')) ''s1'' = None"
proof -
  define y where "y = the (run demo_before initial_system)"
  define y' where "y' = the (run demo_after y)"
  define y'' where "y'' = the (run demo_sweep y)"
  define x where "x = the (map_of (activeSessions (srv y)) ''s1'')"
  have r0: "run demo_before initial_system = Some y"
    unfolding y_def by (simp add: demo_simps)
  have r1: "run demo_after y = Some y'"
    unfolding y'_def y_def by (simp add: demo_simps)
  have r2: "run demo_sweep y = Some y''"
    unfolding y''_def y_def by (simp add: demo_simps demo_sweep_def)
  have gone: "map_of (activeSessions (srv y'')) ''s1'' = None"
    unfolding y''_def y_def by (simp add: demo_simps demo_sweep_def)
  have lx: "map_of (activeSessions (srv y)) ''s1'' = Some x"
    unfolding x_def y_def by (simp add: demo_simps)
  have sx: "status x = Completed"
    unfolding x_def y_def by (simp add: demo_simps)
  then have t: "status x \<noteq> Processing"
    by simp
  have ns: "\<not> list_ex is_sweep demo_after"
    by (simp add: demo_after_def)
  from terminal_session_frozen [OF r0 r1 lx t, of "Inl (Error ''late'')" 5000] ns
  have "map_of (activeSessions (srv y')) ''s1'' = Some x"
    and "step (Settle ''s1'' (Inl (Error ''late'')) 5000) y' = None"
    by blast+
  with r0 r1 r2 lx sx ns gone show ?thesis
    by blast
qed

text \<open>
  C2. In every reachable state and for each of the four kiosks, \<open>completed + failed\<close> plus
  the number of that kiosk's suspended invocations equals \<open>total\<close>; hence
  \<open>completed + failed \<le> total\<close>.
\<close>

theorem settled_jobs_within_total:
  assumes reach: "run evs initial_system = Some y" and k: "k \<in> set kiosk_ids"
  shows "\<exists>st. kioskStats (srv y) k = Some st \<and>
           completed st + failed st + in_flight k y = totalCount st \<and>
           completed st + failed st \<le> totalCount st"
proof -
  have "stats_inv y"
    using sys_inv_initial stats_inv_initial reach by (rule stats_inv_run)
  then have d: "dom (kioskStats (srv y)) = set kiosk_ids"
    and eq: "\<And>st. kioskStats (srv y) k = Some st \<Longrightarrow>
               completed st + failed st + in_flight k y = totalCount st"
    by (simp_all add: stats_inv_def)
  from d k obtain st where st: "kioskStats (srv y) k = Some st"
    by blast
  from eq [OF st] st show ?thesis
    by simp
qed

theorem settled_jobs_within_total_witness:
  "\<exists>y st. run (demo_before @ demo_after) initial_system = Some y \<and>
     ''kiosk-1'' \<in> set kiosk_ids \<and> kioskStats (srv y) ''kiosk-1'' = Some st \<and>
     totalCount st = 2 \<and> completed st + failed st \<le> totalCount st"
proof -
  define y where "y = the (run (demo_before @ demo_after) initial_system)"
  have r: "run (demo_before @ demo_after) initial_system = Some y"
    unfolding y_def by (simp add: demo_simps)
  have k: "''kiosk-1'' \<in> set kiosk_ids"
    by (simp add: kiosk_ids_def)
  have tot: "totalCount (the (kioskStats (srv y) ''kiosk-1'')) = 2"
    unfolding y_def by (simp add: demo_simps)
  from settled_jobs_within_total [OF r k] tot r k show ?thesis
    by auto
qed

section \<open>The outputs sweep\<close>

lemma sweep_files_eq:
  "sweep_files F now files =
     (filter (is_old F now) (takeWhile (\<lambda>f. file_error F now f = None) files),
      first_error F now files)"
proof (induction files)
  case Nil
  then show ?case by (simp add: first_error_def)
next
  case (Cons f files)
  show ?case
  proof (cases "stat F f")
    case (Inl e)
    then show ?thesis
      by (simp add: file_error_def first_error_def)
  next
    case (Inr m)
    show ?thesis
    proof (cases "now - m > maxAge")
      case True
      with Inr Cons.IH show ?thesis
        by (cases "unlink F f") (simp_all add: file_error_def first_error_def is_old_def)
    next
      case False
      with Inr Cons.IH show ?thesis
        by (simp add: file_error_def first_error_def is_old_def)
    qed
  qed
qed

text \<open>
  C3, as the code has it. The \<open>try\<close> encloses the whole loop, so the first \<open>stat\<close> or
  \<open>unlink\<close> that throws ends the sweep: the files deleted are the old ones listed before
  that file, the files listed after it are not examined, and the error is written with
  \<open>console.error\<close> and not re-thrown. When nothing throws, exactly the files older than
  four hours are deleted.
\<close>

theorem sweep_stops_at_first_failure:
  "(readdir F = Inl e \<longrightarrow> cleanup_job F now = ([], [(''Cleanup error:'', e)])) \<and>
   (readdir F = Inr files \<longrightarrow>
      fst (cleanup_job F now) =
        filter (is_old F now) (takeWhile (\<lambda>f. file_error F now f = None) files) \<and>
      snd (cleanup_job F now) =
        (case first_error F now files of None \<Rightarrow> [] | Some e' \<Rightarrow> [(''Cleanup error:'', e')]) \<and>
      ((\<forall>f \<in> set files. file_error F now f = None) \<longrightarrow>
         cleanup_job F now = (filter (is_old F now) files, [])))"
  (is "?listing \<and> (?dir \<longrightarrow> ?deleted \<and> ?logged \<and> (?healthy \<longrightarrow> ?all))")
proof -
  have ?listing
    by (simp add: cleanup_job_def)
  moreover have ?deleted and ?logged if ?dir
    using that by (simp_all add: cleanup_job_def sweep_files_eq split: option.splits)
  moreover have ?all if ?dir and h: ?healthy
  proof -
    from h have d: "dropWhile (\<lambda>f. file_error F now f = None) files = []"
      by simp
    from h have t: "takeWhile (\<lambda>f. file_error F now f = None) files = files"
      by simp
    have "sweep_files F now files = (filter (is_old F now) files, None)"
      unfolding sweep_files_eq first_error_def d t by simp
    with \<open>?dir\<close> show ?thesis
      by (simp add: cleanup_job_def)
  qed
  ultimately show ?thesis
    by blast
qed

theorem sweep_stops_at_first_failure_witness:
  "readdir demo_fs = Inr [''a.png'', ''b.png''] \<and>
   fst (cleanup_job demo_fs (maxAge + 1)) = [] \<and>
   snd (cleanup_job demo_fs (maxAge + 1)) = [(''Cleanup error:'', Error ''ENOENT'')] \<and>
   readdir demo_fs_healthy = Inr [''a.png'', ''b.png'', ''c.png''] \<and>
   file_error demo_fs_healthy (maxAge + 1) ''a.png'' = None \<and>
   file_error demo_fs_healthy (maxAge + 1) ''b.png'' = None \<and>
   file_error demo_fs_healthy (maxAge + 1) ''c.png'' = None \<and>
   cleanup_job demo_fs_healthy (maxAge + 1) = ([''a.png'', ''c.png''], []) \<and>
   readdir demo_fs_unreadable = Inl (Error ''EACCES'') \<and>
   cleanup_job demo_fs_unreadable (maxAge + 1) = ([], [(''Cleanup error:'', Error ''EACCES'')])"
  using sweep_stops_at_first_failure [of demo_fs "Error ''x''" "maxAge + 1" "[''a.png'', ''b.png'']"]
    sweep_stops_at_first_failure [of demo_fs_healthy "Error ''x''" "maxAge + 1" "[''a.png'', ''b.png'', ''c.png'']"]
    sweep_stops_at_first_failure [of demo_fs_unreadable "Error ''EACCES''" "maxAge + 1" "[]"]
  by (simp add: demo_fs_def demo_fs_healthy_def demo_fs_unreadable_def file_error_def
      first_error_def is_old_def)

text \<open>
  C3, as stated, fails: \<open>stat\<close> throws on \<open>a.png\<close>, and \<open>b.png\<close>, which is older than
  four hours and could be unlinked, is not deleted.
\<close>

theorem sweep_abandons_later_files:
  "readdir demo_fs = Inr [''a.png'', ''b.png''] \<and>
   stat demo_fs ''a.png'' = Inl (Error ''ENOENT'') \<and>
   stat demo_fs ''b.png'' = Inr 0 \<and> (maxAge + 1) - 0 > maxAge \<and>
   unlink demo_fs ''b.png'' = None \<and>
   ''b.png'' \<notin> set (fst (cleanup_job demo_fs (maxAge + 1)))"
  by (simp add: demo_fs_def cleanup_job_def)

section \<open>The request handler\<close>

text \<open>
  C6. With more than 10 queued tasks no request is added to the queue, and the handler
  leaves sessions and stats as they were. A submission, that is a request with its three
  required fields (what reaches the backlog check), is then answered 503 with the busy
  message and the backlog size. With 10 or fewer queued tasks a submission is added to the
  queue, with priority 1 for \<open>kiosk-3\<close> and 0 otherwise, and the handler's answer is the
  one of its job. A request with a missing field has no task: the field check, which runs
  before the backlog check, answers 400 whatever the backlog.
\<close>

theorem backlog_gate_rejects_above_ten:
  "(10 < q \<longrightarrow>
      (\<forall>tk prio. generate_admit req q \<noteq> Add tk prio) \<and>
      fst (post_generate E sid t0 tA req q s) = s) \<and>
   (truthy (body_backgroundId req) \<and> truthy (body_gender req) \<and> req_file req \<noteq> None \<longrightarrow>
      (10 < q \<longrightarrow>
         generate_admit req q =
           Reply \<lparr>code = 503,
                  body = [(''error'', JStr ''Server is busy, please try again''),
                          (''queueSize'', JNum (int q))]\<rparr> \<and>
         post_generate E sid t0 tA req q s =
           (s, \<lparr>code = 503,
                body = [(''error'', JStr ''Server is busy, please try again''),
                        (''queueSize'', JNum (int q))]\<rparr>)) \<and>
      (q \<le> 10 \<longrightarrow>
         generate_admit req q =
           Add \<lparr>task_buffer = fst (the (req_file req)), task_mimetype = snd (the (req_file req)),
                task_options =
                  (the (body_backgroundId req), the (body_gender req),
                   case body_prominence req of None \<Rightarrow> ''medium'' | Some p \<Rightarrow> p),
                task_kioskId = header_kioskId req\<rparr>
               (if header_kioskId req = ''kiosk-3'' then 1 else 0) \<and>
         activeSessions (fst (post_generate E sid t0 tA req q s)) =
           activeSessions
             (fst (processGeneration E sid t0 tA
                     (the (body_backgroundId req), the (body_gender req),
                      case body_prominence req of None \<Rightarrow> ''medium'' | Some p \<Rightarrow> p)
                     (header_kioskId req) s)) \<and>
         snd (post_generate E sid t0 tA req q s) =
           snd (generate_reply (header_kioskId req)
                  (snd (processGeneration E sid t0 tA
                          (the (body_backgroundId req), the (body_gender req),
                           case body_prominence req of None \<Rightarrow> ''medium'' | Some p \<Rightarrow> p)
                          (header_kioskId req) s))))) \<and>
   (\<not> truthy (body_backgroundId req) \<or> \<not> truthy (body_gender req) \<or> req_file req = None \<longrightarrow>
      post_generate E sid t0 tA req q s =
        (s, \<lparr>code = 400, body = [(''error'', JStr ''Missing required fields'')]\<rparr>))"
  (is "?never \<and> (?complete \<longrightarrow> ?busy \<and> ?admitted) \<and> ?incomplete")
proof -
  have ?never
    by (auto simp: generate_admit_def post_generate_def Let_def)
  moreover have ?busy if ?complete
    using that by (auto simp: generate_admit_def post_generate_def Let_def)
  moreover have ?admitted if ?complete
    using that by (auto simp: generate_admit_def post_generate_def Let_def split_beta)
  moreover have ?incomplete
    by (auto simp: generate_admit_def post_generate_def Let_def)
  ultimately show ?thesis
    by blast
qed

theorem backlog_gate_rejects_above_ten_witness:
  "truthy (body_backgroundId demo_valid) \<and> truthy (body_gender demo_valid) \<and>
   req_file demo_valid \<noteq> None \<and>
   post_generate demo_env ''s1'' 1000 1001 demo_valid 11 initial_server =
     (initial_server,
      \<lparr>code = 503,
       body = [(''error'', JStr ''Server is busy, please try again''),
               (''queueSize'', JNum 11)]\<rparr>) \<and>
   generate_admit demo_valid 10 =
     Add \<lparr>task_buffer = ''JPEG'', task_mimetype = ''image/jpeg'',
          task_options = (''tcs50-vondelpark'', ''male'', ''low''),
          task_kioskId = ''kiosk-3''\<rparr> 1 \<and>
   code (snd (post_generate demo_env ''s1'' 1000 1001 demo_valid 10 initial_server)) = 200 \<and>
   \<not> truthy (body_gender demo_incomplete) \<and>
   post_generate demo_env ''s1'' 1000 1001 demo_incomplete 11 initial_server =
     (initial_server, \<lparr>code = 400, body = [(''error'', JStr ''Missing required fields'')]\<rparr>)"
proof -
  have c: "truthy (body_backgroundId demo_valid) \<and> truthy (body_gender demo_valid) \<and>
      req_file demo_valid \<noteq> None"
    by (simp add: demo_valid_def truthy_def)
  have h: "header_kioskId demo_valid = ''kiosk-3''"
    by (simp add: demo_valid_def header_kioskId_def truthy_def)
  have f: "body_backgroundId demo_valid = Some ''tcs50-vondelpark'' \<and>
      body_gender demo_valid = Some ''male'' \<and> body_prominence demo_valid = Some ''low'' \<and>
      req_file demo_valid = Some (''JPEG'', ''image/jpeg'')"
    by (simp add: demo_valid_def)
  have ok: "\<exists>r. snd (processGeneration demo_env ''s1'' 1000 1001
      (''tcs50-vondelpark'', ''male'', ''low'') ''kiosk-3'' initial_server) = Inr r"
    by (simp add: processGeneration_def try_body_def BACKGROUNDS_def demo_env_def truthy_def Let_def)
  have i: "\<not> truthy (body_gender demo_incomplete)"
    by (simp add: demo_incomplete_def truthy_def)
  from backlog_gate_rejects_above_ten [of 11 demo_valid demo_env "''s1''" 1000 1001 initial_server]
    backlog_gate_rejects_above_ten [of 10 demo_valid demo_env "''s1''" 1000 1001 initial_server]
    backlog_gate_rejects_above_ten [of 11 demo_incomplete demo_env "''s1''" 1000 1001 initial_server]
    c h f ok i
  show ?thesis
    by (auto simp: generate_reply_def)
qed

lemma processGeneration_failure:
  "try_body E sid kid (fst opts) = Inl e \<Longrightarrow>
   processGeneration E sid t0 tA opts kid s =
     (pg_fail sid kid e (endClock E) (pg_begin sid kid opts t0 tA s), Inl e)"
  by (simp add: processGeneration_def Let_def)

lemma console_pg_begin: "console (pg_begin sid kid opts t0 tA s) = console s"
  by (cases opts) (simp add: pg_begin_def)

text \<open>
  C4, as the code has it. When the job of an admitted request fails with error \<open>e\<close>, the
  answer is 500 with three fields: the generic message, \<open>details\<close> holding \<open>e.message\<close>
  verbatim, and the kiosk id. The error is written with \<open>console.error\<close> twice, by
  \<open>processGeneration\<close> and by the handler.
\<close>

theorem failure_response_carries_details:
  assumes "generate_admit req q = Add tk prio"
    and "try_body E sid (task_kioskId tk) (fst (task_options tk)) = Inl e"
  shows "snd (post_generate E sid t0 tA req q s) =
           \<lparr>code = 500,
            body = [(''error'', JStr ''Failed to generate image''),
                    (''details'', JStr (message e)),
                    (''kioskId'', JStr (header_kioskId req))]\<rparr> \<and>
         console (fst (post_generate E sid t0 tA req q s)) =
           console s @
             [(''['' @ header_kioskId req @ ''] Generation error:'', e),
              (''['' @ header_kioskId req @ ''] Error:'', e)]"
proof -
  from assms(1) have kid: "task_kioskId tk = header_kioskId req"
    by (auto simp: generate_admit_def Let_def split: if_splits)
  show ?thesis
    using assms kid
    by (simp add: post_generate_def processGeneration_failure generate_reply_def
        pg_fail_def console_pg_begin)
qed

theorem failure_response_carries_details_witness:
  "generate_admit demo_request 0 =
     Add \<lparr>task_buffer = ''JPEG'', task_mimetype = ''image/jpeg'',
          task_options = (''bg-unknown'', ''female'', ''medium''),
          task_kioskId = ''unknown''\<rparr> 0 \<and>
   try_body demo_env ''s1'' ''unknown'' ''bg-unknown'' = Inl (Error ''Invalid background selection'') \<and>
   snd (post_generate demo_env ''s1'' 1000 1001 demo_request 0 initial_server) =
     \<lparr>code = 500,
      body = [(''error'', JStr ''Failed to generate image''),
              (''details'', JStr ''Invalid background selection''),
              (''kioskId'', JStr ''unknown'')]\<rparr>"
proof -
  have a: "generate_admit demo_request 0 =
     Add \<lparr>task_buffer = ''JPEG'', task_mimetype = ''image/jpeg'',
          task_options = (''bg-unknown'', ''female'', ''medium''),
          task_kioskId = ''unknown''\<rparr> 0"
    by (simp add: demo_req_simps)
  have b: "try_body demo_env ''s1'' ''unknown'' ''bg-unknown'' = Inl (Error ''Invalid background selection'')"
    by (simp add: demo_req_simps)
  have h: "header_kioskId demo_request = ''unknown''"
    by (simp add: demo_req_simps)
  from failure_response_carries_details [OF a, of demo_env "''s1''" "Error ''Invalid background selection''" 1000 1001 initial_server] a b h
  show ?thesis
    by simp
qed

text \<open>
  C4, as stated, fails: for an unknown background the body carries the internal message
  \<open>Invalid background selection\<close> in its \<open>details\<close> field.
\<close>

theorem failure_response_not_generic_only:
  "snd (post_generate demo_env ''s1'' 1000 1001 demo_request 0 initial_server) =
     \<lparr>code = 500,
      body = [(''error'', JStr ''Failed to generate image''),
              (''details'', JStr ''Invalid background selection''),
              (''kioskId'', JStr ''unknown'')]\<rparr>"
  by (simp add: demo_req_simps post_generate_def processGeneration_def generate_reply_def)

section \<open>Failed jobs\<close>

lemma stats_pg_fail:
  "kioskStats (pg_fail sid kid e t s) =
     (case kioskStats s kid of
        None \<Rightarrow> kioskStats s
      | Some st \<Rightarrow> (kioskStats s)(kid \<mapsto> st\<lparr>failed := failed st + 1\<rparr>))"
  by (simp add: pg_fail_def bump_failed_def)

lemma stats_begin_at_kiosk:
  "kioskStats (pg_begin sid kid opts t0 tA s) =
     (case kioskStats s kid of
        None \<Rightarrow> kioskStats s
      | Some st \<Rightarrow> (kioskStats s)(kid \<mapsto> st\<lparr>totalCount := totalCount st + 1, lastActive := Some tA\<rparr>))"
  by (cases opts) (auto simp: pg_begin_def bump_total_def set_lastActive_def split: option.splits)

lemma session_pg_fail:
  "map_of (activeSessions (pg_fail sid kid e t s)) sid =
     Some (failed_session (map_of (activeSessions s) sid) e t)"
  by (simp add: pg_fail_def update_conv')

lemma failed_job_session:
  assumes "try_body E sid kid bid = Inl e"
  shows "map_of (activeSessions (fst (processGeneration E sid t0 tA (bid, gen, prom) kid s))) sid =
     Some \<lparr>kioskId = Some kid, startTime = Some t0, status = Failed,
           backgroundId = Some bid, gender = Some gen, prominence = Some prom,
           endTime = Some (endClock E), outputFile = None, error = Some (message e)\<rparr>"
proof -
  from assms have "try_body E sid kid (fst (bid, gen, prom)) = Inl e"
    by simp
  from processGeneration_failure [OF this, of t0 tA s] show ?thesis
    by (simp add: session_pg_fail sessions_pg_begin failed_session_def)
qed

lemma failed_job_stats:
  assumes "try_body E sid kid bid = Inl e"
  shows "kioskStats (fst (processGeneration E sid t0 tA (bid, gen, prom) kid s)) =
     (case kioskStats s kid of
        None \<Rightarrow> kioskStats s
      | Some st \<Rightarrow>
          (kioskStats s)(kid \<mapsto>
             \<lparr>totalCount = totalCount st + 1, completed = completed st,
              failed = failed st + 1, lastActive = Some tA\<rparr>))"
proof -
  from assms have f: "try_body E sid kid (fst (bid, gen, prom)) = Inl e"
    by simp
  show ?thesis
  proof (cases "kioskStats s kid")
    case None
    then show ?thesis
      by (simp add: processGeneration_failure [OF f] stats_pg_fail stats_begin_at_kiosk)
  next
    case (Some st)
    then show ?thesis
      by (cases st) (simp add: processGeneration_failure [OF f] stats_pg_fail stats_begin_at_kiosk)
  qed
qed

text \<open>
  C5. A background id that is not a key of \<open>BACKGROUNDS\<close> makes the body of the \<open>try\<close>
  throw (\<open>Invalid background selection\<close>, unless the id resolves through the prototype
  chain, where \<open>path.join\<close> throws instead). Whenever the body throws \<open>e\<close>,
  \<open>processGeneration\<close> re-throws the same \<open>e\<close>, leaves the session \<open>failed\<close> with
  \<open>e.message\<close> and an end time, and, for a kiosk of the allow-list, has added exactly one to
  \<open>failed\<close> (and one to \<open>total\<close> at submission) and nothing to \<open>completed\<close>; for any
  other kiosk id the stats are unchanged. The last two parts say the same of the \<open>catch\<close>
  block run in any state, whatever happened since the job started.
\<close>

theorem failure_recorded_and_rethrown:
  "(map_of BACKGROUNDS bid = None \<longrightarrow> (\<exists>e'. try_body E sid kid bid = Inl e')) \<and>
   (map_of BACKGROUNDS bid = None \<and> \<not> protoHas E bid \<longrightarrow>
      try_body E sid kid bid = Inl (Error ''Invalid background selection'')) \<and>
   (try_body E sid kid bid = Inl e \<longrightarrow>
      snd (processGeneration E sid t0 tA (bid, gen, prom) kid s) = Inl e \<and>
      map_of (activeSessions (fst (processGeneration E sid t0 tA (bid, gen, prom) kid s))) sid =
        Some \<lparr>kioskId = Some kid, startTime = Some t0, status = Failed,
              backgroundId = Some bid, gender = Some gen, prominence = Some prom,
              endTime = Some (endClock E), outputFile = None, error = Some (message e)\<rparr> \<and>
      (\<forall>st. kioskStats s kid = Some st \<longrightarrow>
         kioskStats (fst (processGeneration E sid t0 tA (bid, gen, prom) kid s)) =
           (kioskStats s)(kid \<mapsto>
              \<lparr>totalCount = totalCount st + 1, completed = completed st,
               failed = failed st + 1, lastActive = Some tA\<rparr>)) \<and>
      (kioskStats s kid = None \<longrightarrow>
         kioskStats (fst (processGeneration E sid t0 tA (bid, gen, prom) kid s)) = kioskStats s)) \<and>
   (\<exists>x. map_of (activeSessions (pg_settle sid kid (Inl e) t s)) sid = Some x \<and>
        status x = Failed \<and> error x = Some (message e) \<and> endTime x = Some t) \<and>
   (\<forall>st. kioskStats s kid = Some st \<longrightarrow>
      kioskStats (pg_settle sid kid (Inl e) t s) = (kioskStats s)(kid \<mapsto> st\<lparr>failed := failed st + 1\<rparr>))"
  (is "?unknown \<and> ?invalid \<and> ?whole \<and> ?late \<and> ?late_stats")
proof -
  have ?unknown
    by (simp add: try_body_def)
  moreover have ?invalid
    by (simp add: try_body_def)
  moreover have ?whole
  proof
    assume f: "try_body E sid kid bid = Inl e"
    then have "try_body E sid kid (fst (bid, gen, prom)) = Inl e"
      by simp
    from processGeneration_failure [OF this, of t0 tA s]
    have "snd (processGeneration E sid t0 tA (bid, gen, prom) kid s) = Inl e"
      by simp
    then show "snd (processGeneration E sid t0 tA (bid, gen, prom) kid s) = Inl e \<and>
      map_of (activeSessions (fst (processGeneration E sid t0 tA (bid, gen, prom) kid s))) sid =
        Some \<lparr>kioskId = Some kid, startTime = Some t0, status = Failed,
              backgroundId = Some bid, gender = Some gen, prominence = Some prom,
              endTime = Some (endClock E), outputFile = None, error = Some (message e)\<rparr> \<and>
      (\<forall>st. kioskStats s kid = Some st \<longrightarrow>
         kioskStats (fst (processGeneration E sid t0 tA (bid, gen, prom) kid s)) =
           (kioskStats s)(kid \<mapsto>
              \<lparr>totalCount = totalCount st + 1, completed = completed st,
               failed = failed st + 1, lastActive = Some tA\<rparr>)) \<and>
      (kioskStats s kid = None \<longrightarrow>
         kioskStats (fst (processGeneration E sid t0 tA (bid, gen, prom) kid s)) = kioskStats s)"
      by (simp add: failed_job_session [OF f] failed_job_stats [OF f])
  qed
  moreover have ?late
    by (simp add: pg_settle_def session_pg_fail failed_session_def split: option.splits)
  moreover have ?late_stats
    by (simp add: pg_settle_def stats_pg_fail)
  ultimately show ?thesis
    by blast
qed

theorem failure_recorded_and_rethrown_witness:
  "map_of BACKGROUNDS ''bg-unknown'' = None \<and>
   try_body demo_env ''s1'' ''kiosk-1'' ''bg-unknown'' = Inl (Error ''Invalid background selection'') \<and>
   snd (processGeneration demo_env ''s1'' 1000 1001 (''bg-unknown'', ''male'', ''low'') ''kiosk-1''
          initial_server) = Inl (Error ''Invalid background selection'') \<and>
   map_of (activeSessions (fst (processGeneration demo_env ''s1'' 1000 1001
          (''bg-unknown'', ''male'', ''low'') ''kiosk-1'' initial_server))) ''s1'' =
     Some \<lparr>kioskId = Some ''kiosk-1'', startTime = Some 1000, status = Failed,
           backgroundId = Some ''bg-unknown'', gender = Some ''male'', prominence = Some ''low'',
           endTime = Some 2001, outputFile = None,
           error = Some ''Invalid background selection''\<rparr> \<and>
   kioskStats initial_server ''kiosk-1'' = Some zero_stats \<and>
   kioskStats (fst (processGeneration demo_env ''s1'' 1000 1001
          (''bg-unknown'', ''male'', ''low'') ''kiosk-1'' initial_server)) ''kiosk-1'' =
     Some \<lparr>totalCount = 1, completed = 0, failed = 1, lastActive = Some 1001\<rparr> \<and>
   kioskStats initial_server ''kiosk-9'' = None \<and>
   try_body demo_env ''s2'' ''kiosk-9'' ''bg-unknown'' = Inl (Error ''Invalid background selection'') \<and>
   kioskStats (fst (processGeneration demo_env ''s2'' 1000 1001
          (''bg-unknown'', ''male'', ''low'') ''kiosk-9'' initial_server)) = kioskStats initial_server"
proof -
  have n: "map_of BACKGROUNDS ''bg-unknown'' = None"
    by (simp add: BACKGROUNDS_def)
  have t: "try_body demo_env ''s1'' ''kiosk-1'' ''bg-unknown'' = Inl (Error ''Invalid background selection'')"
    by (simp add: demo_req_simps)
  have t9: "try_body demo_env ''s2'' ''kiosk-9'' ''bg-unknown'' = Inl (Error ''Invalid background selection'')"
    by (simp add: demo_req_simps)
  have k: "kioskStats initial_server ''kiosk-1'' = Some zero_stats"
    by (simp add: initial_server_def kiosk_ids_def)
  have k9: "kioskStats initial_server ''kiosk-9'' = None"
    by (simp add: initial_server_def kiosk_ids_def)
  have c: "endClock demo_env = 2001"
    by (simp add: demo_env_def)
  from failure_recorded_and_rethrown [of "''bg-unknown''" demo_env "''s1''" "''kiosk-1''"
      "Error ''Invalid background selection''" 1000 1001 "''male''" "''low''" initial_server 0]
    failure_recorded_and_rethrown [of "''bg-unknown''" demo_env "''s2''" "''kiosk-9''"
      "Error ''Invalid background selection''" 1000 1001 "''male''" "''low''" initial_server 0]
    n t t9 k k9 c
  show ?thesis
    by (simp add: zero_stats_def)
qed

section \<open>Sessions of kiosks outside the allow-list\<close>

lemma update_fresh_appends:
  "k \<notin> fst ` set al \<Longrightarrow> AList.update k v al = al @ [(k, v)]"
  by (induction al) auto

lemma last_slice_last20: "last (slice_last20 (xs @ [x])) = x"
  by (simp add: slice_last20_def)

lemma recent_after_append:
  "activeSessions s = al @ [(k, x)] \<Longrightarrow>
   last (recentSessions s) = \<lparr>view_id = slice8 k, view_session = x, duration = duration_of x\<rparr>"
proof -
  assume a: "activeSessions s = al @ [(k, x)]"
  have ne: "slice_last20 (al @ [(k, x)]) \<noteq> []"
    by (simp add: slice_last20_def)
  show ?thesis
    by (simp add: recentSessions_def a last_map [OF ne] last_slice_last20)
qed

lemma admit_task:
  "generate_admit req q = Add tk prio \<Longrightarrow>
   task_kioskId tk = header_kioskId req \<and>
   task_options tk =
     (the (body_backgroundId req), the (body_gender req),
      case body_prominence req of None \<Rightarrow> ''medium'' | Some p \<Rightarrow> p)"
  by (auto simp: generate_admit_def Let_def split: if_splits)

lemma processGeneration_state:
  "fst (processGeneration E sid t0 tA opts kid s) =
     pg_settle sid kid (try_body E sid kid (fst opts)) (endClock E) (pg_begin sid kid opts t0 tA s)"
  by (simp add: processGeneration_def pg_settle_def Let_def split: sum.splits)

lemma reachable_invariants:
  assumes "run evs initial_system = Some y"
  shows "sys_inv y" and "stats_inv y"
proof -
  show "sys_inv y"
    using sys_inv_initial assms by (rule sys_inv_run)
  show "stats_inv y"
    using sys_inv_initial stats_inv_initial assms by (rule stats_inv_run)
qed

lemma update_newest:
  "k \<notin> fst ` set al \<Longrightarrow> AList.update k v (al @ [(k, w)]) = al @ [(k, v)]"
  by (induction al) auto

lemma lookup_newest:
  "k \<notin> fst ` set al \<Longrightarrow> map_of (al @ [(k, w)]) k = Some w"
  by (induction al) auto

lemma sessions_settle_newest:
  assumes "activeSessions s = al @ [(sid, x)]" and "sid \<notin> fst ` set al"
  shows "activeSessions (pg_settle sid kid outcome t s) =
           al @ [(sid, case outcome of
                         Inl e \<Rightarrow> failed_session (Some x) e t
                       | Inr f \<Rightarrow> completed_session (Some x) t f)]"
proof -
  have l: "map_of (activeSessions s) sid = Some x"
    unfolding assms(1) using assms(2) by (rule lookup_newest)
  show ?thesis
    unfolding pg_settle_def pg_complete_def pg_fail_def l
    using assms by (cases outcome) (simp_all add: update_newest)
qed

lemma handler_runs_job:
  assumes "generate_admit req q = Add tk prio"
  shows "activeSessions (fst (post_generate E sid t0 tA req q s)) =
           activeSessions (fst (processGeneration E sid t0 tA (task_options tk) (task_kioskId tk) s))"
    and "kioskStats (fst (post_generate E sid t0 tA req q s)) =
           kioskStats (fst (processGeneration E sid t0 tA (task_options tk) (task_kioskId tk) s))"
  using assms by (simp_all add: post_generate_def split_beta)

lemma stats_settle_off_list:
  "kioskStats s kid = None \<Longrightarrow> kioskStats (pg_settle sid kid outcome t s) = kioskStats s"
  by (cases outcome)
     (simp_all add: pg_settle_def pg_complete_def pg_fail_def bump_completed_def bump_failed_def)

lemma session_after_settle:
  "map_of (activeSessions (pg_settle sid kid outcome t s)) sid =
     Some (case outcome of
             Inl e \<Rightarrow> failed_session (map_of (activeSessions s) sid) e t
           | Inr f \<Rightarrow> completed_session (map_of (activeSessions s) sid) t f)"
  by (cases outcome) (simp_all add: pg_settle_def pg_complete_def pg_fail_def update_conv')

text \<open>
  C10. Take any reachable state and any request that passes the field check and the backlog
  gate. Whatever the kiosk id of the header (or \<open>unknown\<close>), the first step of its task
  enters a \<open>processing\<close> session under the id \<open>sid\<close> that \<open>uuidv4()\<close> returned, and
  after the handler has run the job that session is in the map, \<open>failed\<close> or
  \<open>completed\<close> according to the body of the \<open>try\<close>, which is where the background id is
  looked up. For a kiosk id outside the allow-list the kiosk stats are the same before the
  request, after the first step and after the handler. When \<open>sid\<close> is a value
  \<open>uuidv4()\<close> has not returned before, it is not yet a key of the map, the first step is
  possible, the session is appended as the newest entry without touching any other, it is
  the last of the monitor's recent sessions and counted in its total, and it is still the
  newest entry after the handler.
\<close>

theorem session_opened_for_any_kiosk:
  assumes reach: "run evs initial_system = Some y"
    and admit: "generate_admit req q = Add tk prio"
  shows "task_kioskId tk = header_kioskId req \<and>
         task_options tk =
           (the (body_backgroundId req), the (body_gender req),
            case body_prominence req of None \<Rightarrow> ''medium'' | Some p \<Rightarrow> p) \<and>
         map_of (activeSessions (pg_begin sid (header_kioskId req) (task_options tk) t0 tA (srv y))) sid =
           Some \<lparr>kioskId = Some (header_kioskId req), startTime = Some t0,
                 status = Processing, backgroundId = body_backgroundId req,
                 gender = body_gender req,
                 prominence = Some (case body_prominence req of None \<Rightarrow> ''medium'' | Some p \<Rightarrow> p),
                 endTime = None, outputFile = None, error = None\<rparr> \<and>
         map_of (activeSessions (fst (post_generate E sid t0 tA req q (srv y)))) sid =
           Some (case try_body E sid (header_kioskId req) (the (body_backgroundId req)) of
                   Inl e \<Rightarrow>
                     \<lparr>kioskId = Some (header_kioskId req), startTime = Some t0,
                      status = Failed, backgroundId = body_backgroundId req,
                      gender = body_gender req,
                      prominence = Some (case body_prominence req of None \<Rightarrow> ''medium'' | Some p \<Rightarrow> p),
                      endTime = Some (endClock E), outputFile = None, error = Some (message e)\<rparr>
                 | Inr f \<Rightarrow>
                     \<lparr>kioskId = Some (header_kioskId req), startTime = Some t0,
                      status = Completed, backgroundId = body_backgroundId req,
                      gender = body_gender req,
                      prominence = Some (case body_prominence req of None \<Rightarrow> ''medium'' | Some p \<Rightarrow> p),
                      endTime = Some (endClock E), outputFile = Some f, error = None\<rparr>) \<and>
         (header_kioskId req \<notin> set kiosk_ids \<longrightarrow>
            kioskStats (pg_begin sid (header_kioskId req) (task_options tk) t0 tA (srv y)) =
              kioskStats (srv y) \<and>
            kioskStats (fst (post_generate E sid t0 tA req q (srv y))) = kioskStats (srv y)) \<and>
         (sid \<notin> set (issued y) \<longrightarrow>
            sid \<notin> fst ` set (activeSessions (srv y)) \<and>
            step (Begin sid (header_kioskId req) (task_options tk) t0 tA) y =
              Some \<lparr>srv = pg_begin sid (header_kioskId req) (task_options tk) t0 tA (srv y),
                    pending = (sid, header_kioskId req) # pending y,
                    issued = sid # issued y\<rparr> \<and>
            activeSessions (pg_begin sid (header_kioskId req) (task_options tk) t0 tA (srv y)) =
              activeSessions (srv y) @
                [(sid, \<lparr>kioskId = Some (header_kioskId req), startTime = Some t0,
                        status = Processing, backgroundId = body_backgroundId req,
                        gender = body_gender req,
                        prominence = Some (case body_prominence req of None \<Rightarrow> ''medium'' | Some p \<Rightarrow> p),
                        endTime = None, outputFile = None, error = None\<rparr>)] \<and>
            last (monitor_recentSessions
                    (get_monitor qs qp (pg_begin sid (header_kioskId req) (task_options tk) t0 tA (srv y)))) =
              \<lparr>view_id = slice8 sid,
               view_session =
                 \<lparr>kioskId = Some (header_kioskId req), startTime = Some t0,
                  status = Processing, backgroundId = body_backgroundId req,
                  gender = body_gender req,
                  prominence = Some (case body_prominence req of None \<Rightarrow> ''medium'' | Some p \<Rightarrow> p),
                  endTime = None, outputFile = None, error = None\<rparr>,
               duration = Null\<rparr> \<and>
            totalSessions
                (get_monitor qs qp (pg_begin sid (header_kioskId req) (task_options tk) t0 tA (srv y))) =
              length (activeSessions (srv y)) + 1 \<and>
            map fst (activeSessions (fst (post_generate E sid t0 tA req q (srv y)))) =
              map fst (activeSessions (srv y)) @ [sid] \<and>
            view_id (last (monitor_recentSessions
                (get_monitor qs qp (fst (post_generate E sid t0 tA req q (srv y)))))) = slice8 sid)"
  (is "?kidc \<and> ?optsc \<and> ?opened \<and> ?settled \<and> ?stats \<and> (?uuid \<longrightarrow> ?newest)")
proof -
  let ?kid = "header_kioskId req"
  let ?prom = "case body_prominence req of None \<Rightarrow> ''medium'' | Some p \<Rightarrow> p"
  let ?opts = "task_options tk"
  let ?s = "srv y"
  let ?s1 = "pg_begin sid ?kid ?opts t0 tA ?s"
  let ?P = "\<lparr>kioskId = Some ?kid, startTime = Some t0,
               status = Processing, backgroundId = body_backgroundId req,
               gender = body_gender req, prominence = Some ?prom,
               endTime = None, outputFile = None, error = None\<rparr>"
  let ?out = "try_body E sid ?kid (the (body_backgroundId req))"
  let ?final = "fst (post_generate E sid t0 tA req q ?s)"
  from admit_task [OF admit] have kid: "task_kioskId tk = ?kid"
    and opts: "?opts = (the (body_backgroundId req), the (body_gender req), ?prom)"
    by simp_all
  from admit have "truthy (body_backgroundId req)" and "truthy (body_gender req)"
    by (auto simp: generate_admit_def Let_def split: if_splits)
  then have present: "body_backgroundId req \<noteq> None" "body_gender req \<noteq> None"
    by (auto simp: truthy_def split: option.splits)
  from reachable_invariants [OF reach] have inv: "sys_inv y" and sinv: "stats_inv y" .
  have job: "fst (processGeneration E sid t0 tA ?opts ?kid ?s) =
      pg_settle sid ?kid ?out (endClock E) ?s1"
    by (simp add: processGeneration_state opts)
  have run_sessions: "activeSessions ?final = activeSessions (pg_settle sid ?kid ?out (endClock E) ?s1)"
    using handler_runs_job(1) [OF admit, of E sid t0 tA ?s] by (simp add: kid job)
  have run_stats: "kioskStats ?final = kioskStats (pg_settle sid ?kid ?out (endClock E) ?s1)"
    using handler_runs_job(2) [OF admit, of E sid t0 tA ?s] by (simp add: kid job)
  have opened: ?opened
    using present by (auto simp: sessions_pg_begin opts)
  have settled: ?settled
    unfolding run_sessions session_after_settle opened
    by (cases ?out) (simp_all add: failed_session_def completed_session_def)
  have stats: ?stats
  proof
    assume "?kid \<notin> set kiosk_ids"
    with sinv have none: "kioskStats ?s ?kid = None"
      by (auto simp: stats_inv_def)
    then have b: "kioskStats ?s1 = kioskStats ?s"
      by (simp add: stats_begin_at_kiosk)
    with none have "kioskStats (pg_settle sid ?kid ?out (endClock E) ?s1) = kioskStats ?s"
      by (simp add: stats_settle_off_list)
    with b run_stats show "kioskStats ?s1 = kioskStats ?s \<and> kioskStats ?final = kioskStats ?s"
      by simp
  qed
  have newest: ?newest if uuid: ?uuid
  proof -
    from inv uuid have fresh: "sid \<notin> fst ` set (activeSessions ?s)"
      by (auto simp: sys_inv_def)
    from uuid have first: "step (Begin sid ?kid ?opts t0 tA) y =
        Some \<lparr>srv = ?s1, pending = (sid, ?kid) # pending y, issued = sid # issued y\<rparr>"
      by simp
    have reg: "activeSessions ?s1 = activeSessions ?s @ [(sid, ?P)]"
      using present fresh by (auto simp: opts pg_begin_def update_fresh_appends)
    have view: "last (monitor_recentSessions (get_monitor qs qp ?s1)) =
        \<lparr>view_id = slice8 sid, view_session = ?P, duration = Null\<rparr>"
      using recent_after_append [OF reg] by (simp add: get_monitor_def duration_of_def)
    have count: "totalSessions (get_monitor qs qp ?s1) = length (activeSessions ?s) + 1"
      by (simp add: get_monitor_def reg)
    have final: "activeSessions ?final =
        activeSessions ?s @
          [(sid, case ?out of
                   Inl e \<Rightarrow> failed_session (Some ?P) e (endClock E)
                 | Inr f \<Rightarrow> completed_session (Some ?P) (endClock E) f)]"
      using sessions_settle_newest [OF reg fresh, of ?kid ?out "endClock E"]
      by (simp add: run_sessions)
    have final_keys: "map fst (activeSessions ?final) = map fst (activeSessions ?s) @ [sid]"
      by (simp add: final)
    have final_view: "view_id (last (monitor_recentSessions (get_monitor qs qp ?final))) = slice8 sid"
      using recent_after_append [OF final] by (simp add: get_monitor_def)
    from fresh first reg view count final_keys final_view show ?thesis
      by simp
  qed
  from kid opts opened settled stats newest show ?thesis
    by blast
qed

theorem session_opened_for_any_kiosk_witness:
  "run demo_before initial_system \<noteq> None \<and>
   generate_admit demo_request 0 =
     Add \<lparr>task_buffer = ''JPEG'', task_mimetype = ''image/jpeg'',
          task_options = (''bg-unknown'', ''female'', ''medium''),
          task_kioskId = ''unknown''\<rparr> 0 \<and>
   ''s9'' \<notin> set (issued (the (run demo_before initial_system))) \<and>
   ''unknown'' \<notin> set kiosk_ids \<and>
   map_of (activeSessions
       (pg_begin ''s9'' ''unknown'' (''bg-unknown'', ''female'', ''medium'') 5000 5001
          (srv (the (run demo_before initial_system))))) ''s9'' =
     Some \<lparr>kioskId = Some ''unknown'', startTime = Some 5000, status = Processing,
           backgroundId = Some ''bg-unknown'', gender = Some ''female'',
           prominence = Some ''medium'', endTime = None, outputFile = None, error = None\<rparr> \<and>
   map_of (activeSessions
       (fst (post_generate demo_env ''s9'' 5000 5001 demo_request 0
          (srv (the (run demo_before initial_system)))))) ''s9'' =
     Some \<lparr>kioskId = Some ''unknown'', startTime = Some 5000, status = Failed,
           backgroundId = Some ''bg-unknown'', gender = Some ''female'',
           prominence = Some ''medium'', endTime = Some 2001, outputFile = None,
           error = Some ''Invalid background selection''\<rparr> \<and>
   map fst (activeSessions
       (fst (post_generate demo_env ''s9'' 5000 5001 demo_request 0
          (srv (the (run demo_before initial_system)))))) = [''s1'', ''s2'', ''s9''] \<and>
   kioskStats
       (fst (post_generate demo_env ''s9'' 5000 5001 demo_request 0
          (srv (the (run demo_before initial_system))))) =
     kioskStats (srv (the (run demo_before initial_system)))"
proof -
  define y where "y = the (run demo_before initial_system)"
  have r: "run demo_before initial_system = Some y"
    unfolding y_def by (simp add: demo_simps)
  have a: "generate_admit demo_request 0 =
     Add \<lparr>task_buffer = ''JPEG'', task_mimetype = ''image/jpeg'',
          task_options = (''bg-unknown'', ''female'', ''medium''),
          task_kioskId = ''unknown''\<rparr> 0"
    by (simp add: demo_req_simps)
  have u: "''s9'' \<notin> set (issued y)"
    unfolding y_def by (simp add: demo_simps)
  have k: "map fst (activeSessions (srv y)) = [''s1'', ''s2'']"
    unfolding y_def by (simp add: demo_simps)
  have h: "header_kioskId demo_request = ''unknown''"
    by (simp add: demo_req_simps)
  have n: "''unknown'' \<notin> set kiosk_ids"
    by (simp add: kiosk_ids_def)
  have b: "body_backgroundId demo_request = Some ''bg-unknown'' \<and>
           body_gender demo_request = Some ''female'' \<and> body_prominence demo_request = None"
    by (simp add: demo_request_def)
  have t: "try_body demo_env ''s9'' ''unknown'' ''bg-unknown'' = Inl (Error ''Invalid background selection'')"
    by (simp add: demo_req_simps)
  have c: "endClock demo_env = 2001"
    by (simp add: demo_env_def)
  note job = session_opened_for_any_kiosk [OF r a, of "''s9''" 5000 5001 demo_env 0 0]
  from job [THEN conjunct2, THEN conjunct2, THEN conjunct1] h b
  have opened: "map_of (activeSessions
       (pg_begin ''s9'' ''unknown'' (''bg-unknown'', ''female'', ''medium'') 5000 5001 (srv y))) ''s9'' =
     Some \<lparr>kioskId = Some ''unknown'', startTime = Some 5000, status = Processing,
           backgroundId = Some ''bg-unknown'', gender = Some ''female'',
           prominence = Some ''medium'', endTime = None, outputFile = None, error = None\<rparr>"
    by simp
  from job [THEN conjunct2, THEN conjunct2, THEN conjunct2, THEN conjunct1] h b t c
  have settled: "map_of (activeSessions
       (fst (post_generate demo_env ''s9'' 5000 5001 demo_request 0 (srv y)))) ''s9'' =
     Some \<lparr>kioskId = Some ''unknown'', startTime = Some 5000, status = Failed,
           backgroundId = Some ''bg-unknown'', gender = Some ''female'',
           prominence = Some ''medium'', endTime = Some 2001, outputFile = None,
           error = Some ''Invalid background selection''\<rparr>"
    by simp
  from job [THEN conjunct2, THEN conjunct2, THEN conjunct2, THEN conjunct2, THEN conjunct1] h n
  have stats: "kioskStats (fst (post_generate demo_env ''s9'' 5000 5001 demo_request 0 (srv y))) =
     kioskStats (srv y)"
    by simp
  from job [THEN conjunct2, THEN conjunct2, THEN conjunct2, THEN conjunct2, THEN conjunct2] u
  have "map fst (activeSessions (fst (post_generate demo_env ''s9'' 5000 5001 demo_request 0 (srv y)))) =
     map fst (activeSessions (srv y)) @ [''s9'']"
    by blast
  with k have keys: "map fst (activeSessions
       (fst (post_generate demo_env ''s9'' 5000 5001 demo_request 0 (srv y)))) = [''s1'', ''s2'', ''s9'']"
    by simp
  from r have "run demo_before initial_system \<noteq> None"
    by simp
  with a u n opened settled keys stats show ?thesis
    unfolding y_def [symmetric] by blast
qed

end
